theory Spec2Isabelle
  imports Complex_Main "HOL-Library.Multiset"
begin

section \<open>Entities\<close>

text \<open>
  An \<open>ID\<close> is a string. A \<open>ClientFile\<close> carries its id and the ids of its tags, a
  \<open>ClientTag\<close> its id and the ids of its sub-tags. The source calls both id fields
  \<open>id\<close>; here they are \<open>file_id\<close> and \<open>tag_id\<close>, since \<open>id\<close> is the identity function
  of HOL and the two records need different field names.
\<close>

type_synonym ID = string

record ClientFile =
  file_id :: ID
  tags :: "ID list"

record ClientTag =
  tag_id :: ID
  subTags :: "ID list"

datatype error = TypeError

section \<open>UiStore: the selections\<close>

text \<open>
  The observable arrays \<open>fileSelection\<close> and \<open>tagSelection\<close> are lists of ids, in the
  order of insertion and with duplicates. \<open>fileList\<close> is \<open>rootStore.fileStore.fileList\<close>.

  \<open>fetchFilesByTagIDs\<close> is a method of the \<open>FileStore\<close>, whose code is not among the
  files modelled here. The call is kept as a parameter \<open>fetch\<close>: it receives the tag
  selection and acts on \<open>fetchState\<close>, the part of the root store that holds the
  fetches requested. It starts a query, whose answer arrives after the action has
  returned, so the selections and \<open>fileList\<close> are not among the things it acts on.
\<close>

record 'b UiStore =
  fileSelection :: "ID list"
  tagSelection :: "ID list"
  fileList :: "ClientFile list"
  fetchState :: 'b

text \<open>
  \<open>clientFileSelection\<close> maps every selected id to the first file of \<open>fileList\<close> with
  that id; \<open>Array.find\<close> gives \<open>undefined\<close> (here \<open>None\<close>) when there is none.
\<close>

definition clientFileSelection :: "'b UiStore \<Rightarrow> ClientFile option list" where
  "clientFileSelection s =
     map (\<lambda>i. find (\<lambda>f. file_id f = i) (fileList s)) (fileSelection s)"

text \<open>\<open>push\<close> appends; \<open>remove\<close> of an observable array deletes the first occurrence.\<close>

definition selectFile :: "ClientFile \<Rightarrow> 'b UiStore \<Rightarrow> 'b UiStore" where
  "selectFile file s = s\<lparr>fileSelection := fileSelection s @ [file_id file]\<rparr>"

definition deselectFile :: "ClientFile \<Rightarrow> 'b UiStore \<Rightarrow> 'b UiStore" where
  "deselectFile file s = s\<lparr>fileSelection := remove1 (file_id file) (fileSelection s)\<rparr>"

definition clearFileSelection :: "'b UiStore \<Rightarrow> 'b UiStore" where
  "clearFileSelection s = s\<lparr>fileSelection := []\<rparr>"

text \<open>
  \<open>cleanFileSelection\<close> walks the array that \<open>clientFileSelection\<close> returned (a fresh
  array, so deselecting does not disturb the walk). Reading \<open>file.tags\<close> of an
  \<open>undefined\<close> entry throws a \<open>TypeError\<close>.
\<close>

fun cleanFileSelection_forEach :: "ClientFile option list \<Rightarrow> 'b UiStore \<Rightarrow> error + 'b UiStore" where
  "cleanFileSelection_forEach [] s = Inr s"
| "cleanFileSelection_forEach (None # files) s = Inl TypeError"
| "cleanFileSelection_forEach (Some file # files) s =
     cleanFileSelection_forEach files
       (if \<not> list_ex (\<lambda>t. t \<in> set (tagSelection s)) (tags file)
        then deselectFile file s else s)"

definition cleanFileSelection :: "'b UiStore \<Rightarrow> error + 'b UiStore" where
  "cleanFileSelection s = cleanFileSelection_forEach (clientFileSelection s) s"

text \<open>
  The test of \<open>cleanFileSelection\<close> as a predicate on ids, for the statements below: the
  id is that of a file of \<open>files\<close>, and the first such file has a tag in \<open>sel\<close>.
\<close>

definition tagged :: "ClientFile list \<Rightarrow> ID list \<Rightarrow> ID \<Rightarrow> bool" where
  "tagged files sel i =
     (case find (\<lambda>f. file_id f = i) files of
        None \<Rightarrow> False
      | Some f \<Rightarrow> list_ex (\<lambda>t. t \<in> set sel) (tags f))"

definition fetchFilesByTagIDs :: "(ID list \<Rightarrow> 'b \<Rightarrow> 'b) \<Rightarrow> 'b UiStore \<Rightarrow> 'b UiStore" where
  "fetchFilesByTagIDs fetch s = s\<lparr>fetchState := fetch (tagSelection s) (fetchState s)\<rparr>"

definition selectTag :: "(ID list \<Rightarrow> 'b \<Rightarrow> 'b) \<Rightarrow> ClientTag \<Rightarrow> 'b UiStore \<Rightarrow> error + 'b UiStore" where
  "selectTag fetch tag s =
     (case cleanFileSelection (s\<lparr>tagSelection := tagSelection s @ [tag_id tag]\<rparr>) of
        Inl e \<Rightarrow> Inl e
      | Inr s' \<Rightarrow> Inr (fetchFilesByTagIDs fetch s'))"

definition deselectTag :: "(ID list \<Rightarrow> 'b \<Rightarrow> 'b) \<Rightarrow> ClientTag \<Rightarrow> 'b UiStore \<Rightarrow> error + 'b UiStore" where
  "deselectTag fetch tag s =
     (case cleanFileSelection (s\<lparr>tagSelection := remove1 (tag_id tag) (tagSelection s)\<rparr>) of
        Inl e \<Rightarrow> Inl e
      | Inr s' \<Rightarrow> Inr (fetchFilesByTagIDs fetch s'))"

definition clearTagSelection :: "(ID list \<Rightarrow> 'b \<Rightarrow> 'b) \<Rightarrow> 'b UiStore \<Rightarrow> 'b UiStore" where
  "clearTagSelection fetch s = fetchFilesByTagIDs fetch (s\<lparr>tagSelection := []\<rparr>)"

section \<open>SlideView: stepping through the images\<close>

text \<open>
  \<open>SlideView\<close> reads \<open>uiStore.firstItem\<close> and \<open>fileStore.fileList\<close>. Indices are
  JavaScript numbers holding integers, here \<open>int\<close>.
\<close>

record 'f SlideStores =
  firstItem :: int
  fileStore_fileList :: "'f list"

text \<open>
  \<open>setFirstItem\<close> is a method of a later \<open>UiStore\<close> than the one modelled above, whose
  code is not among the files modelled here; it is a parameter. The callbacks read
  \<open>firstItem\<close> and \<open>fileList.length\<close> when they are called.
\<close>

definition decrImgIndex ::
  "(int \<Rightarrow> 'f SlideStores \<Rightarrow> 'f SlideStores) \<Rightarrow> 'f SlideStores \<Rightarrow> 'f SlideStores" where
  "decrImgIndex setFirstItem s = setFirstItem (max 0 (firstItem s - 1)) s"

definition incrImgIndex ::
  "(int \<Rightarrow> 'f SlideStores \<Rightarrow> 'f SlideStores) \<Rightarrow> 'f SlideStores \<Rightarrow> 'f SlideStores" where
  "incrImgIndex setFirstItem s =
     setFirstItem (min (firstItem s + 1) (int (length (fileStore_fileList s)) - 1)) s"

section \<open>ZoomableImage\<close>

text \<open>
  The props the component computes with; the callbacks and transitions it only hands
  on are left out. \<open>thumbnailSrc\<close> is optional. Numbers are of a type \<open>'n\<close>; the
  dimension pair built by \<open>createDimension\<close> (of \<open>./utils\<close>, whose code is not among
  the files modelled here) is of a type \<open>'d\<close>, and \<open>createDimension\<close> is a parameter.
\<close>

record 'n ZoomableImageProps =
  src :: string
  thumbnailSrc :: "string option"
  width :: 'n
  height :: 'n
  imgWidth :: 'n
  imgHeight :: 'n

record 'd CurrentImg =
  img_src :: string
  img_dimensions :: 'd

text \<open>
  \<open>loadError\<close> is \<open>undefined\<close> (\<open>None\<close>) or the error event that \<open>img.onerror\<close> or the
  \<open>onError\<close> of the \<open>img\<close> element passed to \<open>setLoadError\<close>; an event object is truthy.
\<close>

record ('e, 'd) ZoomableImageState =
  loadError :: "'e option"
  currentImg :: "'d CurrentImg"

text \<open>\<open>thumbnailSrc || src\<close>: an absent or empty \<open>thumbnailSrc\<close> is falsy.\<close>

definition thumbnailSrc_or_src :: "'n ZoomableImageProps \<Rightarrow> string" where
  "thumbnailSrc_or_src p =
     (case thumbnailSrc p of
        None \<Rightarrow> src p
      | Some t \<Rightarrow> if t = [] then src p else t)"

definition initialState ::
  "('n \<Rightarrow> 'n \<Rightarrow> 'd) \<Rightarrow> 'n ZoomableImageProps \<Rightarrow> ('e, 'd) ZoomableImageState" where
  "initialState createDimension p =
     \<lparr>loadError = None,
      currentImg = \<lparr>img_src = thumbnailSrc_or_src p,
                    img_dimensions = createDimension (imgWidth p) (imgHeight p)\<rparr>\<rparr>"

text \<open>The effect with dependencies \<open>[src]\<close>: \<open>setLoadError(undefined)\<close>.\<close>

definition loadError_effect :: "('e, 'd) ZoomableImageState \<Rightarrow> ('e, 'd) ZoomableImageState" where
  "loadError_effect st = st\<lparr>loadError := None\<rparr>"

text \<open>
  The effect with dependencies \<open>[src, thumbnailSrc]\<close> sets \<open>currentImg\<close> and starts
  loading the image of \<open>src\<close>; the callbacks of that image are \<open>img_onload\<close> and
  \<open>setLoadError\<close> below, closed over the props of the render that ran the effect.
\<close>

definition currentImg_effect ::
  "('n \<Rightarrow> 'n \<Rightarrow> 'd) \<Rightarrow> 'n ZoomableImageProps \<Rightarrow> ('e, 'd) ZoomableImageState
     \<Rightarrow> ('e, 'd) ZoomableImageState" where
  "currentImg_effect createDimension p st =
     st\<lparr>currentImg := \<lparr>img_src = thumbnailSrc_or_src p,
                        img_dimensions = createDimension (imgWidth p) (imgHeight p)\<rparr>\<rparr>"

text \<open>
  The updater of \<open>img.onload\<close>. \<open>prevImg.src === thumbnailSrc\<close> is false when
  \<open>thumbnailSrc\<close> is \<open>undefined\<close>.
\<close>

definition img_onload_updater ::
  "('n \<Rightarrow> 'n \<Rightarrow> 'd) \<Rightarrow> 'n ZoomableImageProps \<Rightarrow> 'd CurrentImg \<Rightarrow> 'd CurrentImg" where
  "img_onload_updater createDimension p prevImg =
     (if Some (img_src prevImg) = thumbnailSrc p
      then \<lparr>img_src = src p, img_dimensions = createDimension (imgWidth p) (imgHeight p)\<rparr>
      else prevImg)"

definition img_onload ::
  "('n \<Rightarrow> 'n \<Rightarrow> 'd) \<Rightarrow> 'n ZoomableImageProps \<Rightarrow> ('e, 'd) ZoomableImageState
     \<Rightarrow> ('e, 'd) ZoomableImageState" where
  "img_onload createDimension p st =
     st\<lparr>currentImg := img_onload_updater createDimension p (currentImg st)\<rparr>"

definition setLoadError :: "'e \<Rightarrow> ('e, 'd) ZoomableImageState \<Rightarrow> ('e, 'd) ZoomableImageState" where
  "setLoadError e st = st\<lparr>loadError := Some e\<rparr>"

text \<open>
  The effects of one commit, in the order of their declaration. An effect runs after
  the first render (\<open>prev = None\<close>) and after a render in which one of its dependencies
  differs from the render before (\<open>prev = Some q\<close>).
\<close>

definition runEffects ::
  "('n \<Rightarrow> 'n \<Rightarrow> 'd) \<Rightarrow> 'n ZoomableImageProps option \<Rightarrow> 'n ZoomableImageProps
     \<Rightarrow> ('e, 'd) ZoomableImageState \<Rightarrow> ('e, 'd) ZoomableImageState" where
  "runEffects createDimension prev p st =
     (let st1 = (if (case prev of None \<Rightarrow> True | Some q \<Rightarrow> src q \<noteq> src p)
                 then loadError_effect st else st)
      in if (case prev of None \<Rightarrow> True
             | Some q \<Rightarrow> src q \<noteq> src p \<or> thumbnailSrc q \<noteq> thumbnailSrc p)
         then currentImg_effect createDimension p st1 else st1)"

text \<open>
  \<open>Math.min(0.1, Math.min(width / imgWidth, height / imgHeight))\<close>. The definition asks
  of the number type only an order, a division and numerals.
\<close>

definition minScale :: "('n::{linorder,inverse,numeral}) ZoomableImageProps \<Rightarrow> 'n" where
  "minScale p = min (1 / 10) (min (width p / imgWidth p) (height p / imgHeight p))"

text \<open>
  What the component renders inside its container: the \<open>image-error\<close> placeholder with
  its width and height, or the \<open>ZoomPan\<close> viewer with \<open>imageDimension\<close>,
  \<open>containerDimension\<close>, \<open>minScale\<close>, \<open>maxScale\<close> and the \<open>src\<close> of the \<open>img\<close> inside.
\<close>

datatype ('n, 'd) ZoomableContent =
  ImageError 'n 'n
| ZoomPan 'd 'd 'n 'n string

definition renderZoomableImage ::
  "('n \<Rightarrow> 'n \<Rightarrow> 'd) \<Rightarrow> ('n::{linorder,inverse,numeral}) ZoomableImageProps
     \<Rightarrow> ('e, 'd) ZoomableImageState \<Rightarrow> ('n, 'd) ZoomableContent" where
  "renderZoomableImage createDimension p st =
     (case loadError st of
        Some e \<Rightarrow> ImageError (width p) (height p)
      | None \<Rightarrow>
          ZoomPan (img_dimensions (currentImg st)) (createDimension (width p) (height p))
            (minScale p) 5 (img_src (currentImg st)))"

section \<open>GalleryItem\<close>

text \<open>
  Of a drag event the handlers read \<open>dataTransfer.types\<close> and \<open>dataTransfer.getData\<close>
  and write \<open>dataTransfer.dropEffect\<close> and \<open>currentTarget.dataset\<close>.
\<close>

record DragEvent =
  types :: "string list"
  getData :: "string \<Rightarrow> string"
  dropEffect :: string
  dataset :: "string \<rightharpoonup> string"

text \<open>
  \<open>DnDType\<close> and \<open>DnDAttribute.Target\<close> (module \<open>DnD\<close>), \<open>uiStore.getTagContextItems\<close>
  and \<open>file.addTag\<close> are defined in files not modelled here; they are parameters.
  \<open>getTagContextItems\<close> stands for the \<open>tags\<close> of the context it returns. Both loops
  are \<open>forEach\<close> over arrays that \<open>addTag\<close> does not write to.
\<close>

definition handleDrop ::
  "string \<Rightarrow> string \<Rightarrow> (string \<Rightarrow> ClientTag list) \<Rightarrow> (ID \<Rightarrow> ClientFile \<Rightarrow> ClientFile)
     \<Rightarrow> ClientFile \<Rightarrow> DragEvent \<Rightarrow> ClientFile \<times> DragEvent" where
  "handleDrop DnDType DnDAttribute_Target getTagContextItems addTag file event =
     (if DnDType \<in> set (types event) then
        (fold (\<lambda>tag f. fold addTag (subTags tag) (addTag (tag_id tag) f))
           (getTagContextItems (getData event DnDType)) file,
         event\<lparr>dropEffect := ''none'',
               dataset := (dataset event)(DnDAttribute_Target \<mapsto> ''false'')\<rparr>)
      else (file, event))"

text \<open>The two state variables of the thumbnail, both set by effects and handlers.\<close>

record ThumbnailState =
  isThumbnailReady :: bool
  isThumbnailGenerating :: bool

text \<open>\<open>useState(true)\<close> and \<open>useState(false)\<close>.\<close>

definition initialThumbnailState :: ThumbnailState where
  "initialThumbnailState = \<lparr>isThumbnailReady = True, isThumbnailGenerating = False\<rparr>"

definition imagePath :: "bool \<Rightarrow> string \<Rightarrow> string \<Rightarrow> string" where
  "imagePath isSlideMode absolutePath thumbnailPath =
     (if isSlideMode then absolutePath else thumbnailPath)"

text \<open>\<open>String.prototype.endsWith\<close>.\<close>

definition endsWith :: "string \<Rightarrow> string \<Rightarrow> bool" where
  "endsWith s searchString =
     (length searchString \<le> length s
      \<and> drop (length s - length searchString) s = searchString)"

text \<open>The continuation of \<open>ensureThumbnail\<close>, with the value the promise resolved to.\<close>

definition ensureThumbnail_then :: "bool \<Rightarrow> bool \<Rightarrow> ThumbnailState \<Rightarrow> ThumbnailState" where
  "ensureThumbnail_then isBroken exists st =
     (if \<not> exists then
        (if \<not> isBroken
         then st\<lparr>isThumbnailReady := False, isThumbnailGenerating := True\<rparr>
         else st\<lparr>isThumbnailReady := False\<rparr>)
      else st)"

text \<open>The effect with dependencies \<open>[imagePath]\<close>.\<close>

definition thumbnailReady_effect :: "string \<Rightarrow> ThumbnailState \<Rightarrow> ThumbnailState" where
  "thumbnailReady_effect path st =
     (if endsWith path ''?v=1''
      then st\<lparr>isThumbnailReady := True, isThumbnailGenerating := False\<rparr>
      else st)"

text \<open>
  The effect runs after the first render (\<open>prev = None\<close>) and after each render whose
  \<open>imagePath\<close> differs from that of the render before.
\<close>

definition imagePath_commit :: "string option \<Rightarrow> string \<Rightarrow> ThumbnailState \<Rightarrow> ThumbnailState" where
  "imagePath_commit prev path st =
     (if prev \<noteq> Some path then thumbnailReady_effect path st else st)"

definition handleImageError :: "ThumbnailState \<Rightarrow> ThumbnailState" where
  "handleImageError st = st\<lparr>isThumbnailReady := False\<rparr>"

datatype ThumbnailContent = Img string | DonutLoading | MissingImageFallback

definition renderThumbnail :: "string \<Rightarrow> ThumbnailState \<Rightarrow> ThumbnailContent" where
  "renderThumbnail path st =
     (if isThumbnailReady st then Img path
      else if isThumbnailGenerating st then DonutLoading
      else MissingImageFallback)"

section \<open>ToolbarButton\<close>

text \<open>
  An optional prop is an \<open>option\<close>. The field \<open>id\<close> is \<open>button_id\<close> and \<open>text\<close> is
  \<open>button_text\<close> here; \<open>'h\<close> is the type of click handlers, \<open>'i\<close> that of icons.
\<close>

datatype ShowLabel = Always | Never

datatype HasPopup = HasPopupBool bool | Menu | Listbox | Tree | Grid | Dialog

record ('h, 'i) IToolbarButton =
  button_id :: "string option"
  button_text :: string
  icon :: 'i
  onClick :: "'h option"
  showLabel :: "ShowLabel option"
  tooltip :: "string option"
  tabIndex :: "int option"
  role :: "string option"
  disabled :: "bool option"
  pressed :: "bool option"
  checked :: "bool option"
  expanded :: "bool option"
  controls :: "string option"
  haspopup :: "HasPopup option"

text \<open>
  The content of the button: the icon, the text and the class of the text span, bare
  or inside a \<open>Tooltip\<close> with its text and hover delay.
\<close>

datatype 'i ButtonContent =
  Content 'i string string
| Tooltip string nat 'i string string

text \<open>The attributes of the rendered \<open>button\<close> element.\<close>

record ('h, 'i) ButtonElement =
  attr_id :: "string option"
  attr_className :: string
  attr_onClick :: "'h option"
  attr_role :: "string option"
  aria_pressed :: "bool option"
  aria_checked :: "bool option"
  aria_disabled :: "bool option"
  aria_controls :: "string option"
  aria_haspopup :: "HasPopup option"
  aria_expanded :: "bool option"
  attr_tabIndex :: int
  children :: "'i ButtonContent"

definition showLabel_class :: "ShowLabel option \<Rightarrow> string" where
  "showLabel_class l =
     (case l of None \<Rightarrow> [] | Some Always \<Rightarrow> ''always'' | Some Never \<Rightarrow> ''never'')"

definition ToolbarButton :: "('h, 'i) IToolbarButton \<Rightarrow> ('h, 'i) ButtonElement" where
  "ToolbarButton props =
     \<lparr>attr_id = button_id props,
      attr_className = ''toolbar-item toolbar-button'',
      attr_onClick = (if disabled props = Some True then None else onClick props),
      attr_role = role props,
      aria_pressed = pressed props,
      aria_checked = checked props,
      aria_disabled = disabled props,
      aria_controls = controls props,
      aria_haspopup = haspopup props,
      aria_expanded = expanded props,
      attr_tabIndex = (case tabIndex props of None \<Rightarrow> - 1 | Some i \<Rightarrow> i),
      children =
        (let cls = ''toolbar-button-text '' @ showLabel_class (showLabel props) in
         case tooltip props of
           None \<Rightarrow> Content (icon props) (button_text props) cls
         | Some t \<Rightarrow>
             if t = [] then Content (icon props) (button_text props) cls
             else Tooltip t 1500 (icon props) (button_text props) cls)\<rparr>"

text \<open>A click on the element calls the handler attached to it, if there is one.\<close>

definition click :: "('h, 'i) ButtonElement \<Rightarrow> 'h list" where
  "click b = (case attr_onClick b of None \<Rightarrow> [] | Some h \<Rightarrow> [h])"

section \<open>Cleaning the file selection\<close>

lemma find_file_id:
  "find (\<lambda>f. file_id f = i) files = Some f \<Longrightarrow> file_id f = i \<and> f \<in> set files"
  by (induction files) (auto split: if_splits)

lemma find_file_Some:
  "\<exists>f\<in>set files. file_id f = i \<Longrightarrow> \<exists>f. find (\<lambda>f. file_id f = i) files = Some f"
  by (induction files) auto

lemma find_distinct_file_id:
  "distinct (map file_id files) \<Longrightarrow> f \<in> set files
   \<Longrightarrow> find (\<lambda>g. file_id g = file_id f) files = Some f"
  by (induction files) force+

text \<open>
  Removing the first occurrence of the first element that satisfies \<open>P\<close> removes the
  head of the \<open>P\<close>-elements and no other element.
\<close>

lemma filter_remove1_head:
  assumes "filter P xs = i # rest"
  shows "filter P (remove1 i xs) = rest"
proof -
  have "i \<in> set (filter P xs)" using assms by simp
  then have Pi: "P i" by simp
  show ?thesis
    using assms
  proof (induction xs)
    case Nil
    then show ?case by simp
  next
    case (Cons x xs)
    show ?case
    proof (cases "P x")
      case True
      with Cons.prems have "x = i" and "filter P xs = rest" by simp_all
      then show ?thesis by simp
    next
      case False
      with Pi have "x \<noteq> i" by auto
      moreover from False Cons.prems have "filter P xs = i # rest" by simp
      ultimately show ?thesis using False Cons.IH by simp
    qed
  qed
qed

lemma filter_remove1_other:
  "\<not> Q i \<Longrightarrow> filter Q (remove1 i xs) = filter Q xs"
  by (induction xs) auto

text \<open>
  The loop invariant: the ids still to be visited and the ids still selected have the
  same untagged elements, in the same order. So each \<open>deselectFile\<close> of the walk
  removes the occurrence the walk is at, and at the end no untagged id is left.
\<close>

lemma forEach_filter:
  assumes "\<forall>i\<in>set is. \<exists>f\<in>set (fileList s). file_id f = i"
    and "filter (\<lambda>i. \<not> tagged (fileList s) (tagSelection s) i) (fileSelection s)
         = filter (\<lambda>i. \<not> tagged (fileList s) (tagSelection s) i) is"
  shows "cleanFileSelection_forEach (map (\<lambda>i. find (\<lambda>f. file_id f = i) (fileList s)) is) s
         = Inr (s\<lparr>fileSelection :=
                  filter (tagged (fileList s) (tagSelection s)) (fileSelection s)\<rparr>)"
  using assms
proof (induction "is" arbitrary: s)
  case Nil
  let ?T = "tagged (fileList s) (tagSelection s)"
  from Nil.prems(2) have "filter (\<lambda>i. \<not> ?T i) (fileSelection s) = []" by simp
  then have "\<forall>i\<in>set (fileSelection s). ?T i" by (simp add: filter_empty_conv)
  then have "filter ?T (fileSelection s) = fileSelection s" by (simp add: filter_id_conv)
  then show ?case by simp
next
  case (Cons i "is")
  let ?T = "tagged (fileList s) (tagSelection s)"
  from Cons.prems(1) obtain f where f: "find (\<lambda>f. file_id f = i) (fileList s) = Some f"
    using find_file_Some[of "fileList s" i] by auto
  have fid: "file_id f = i" using find_file_id[OF f] by simp
  have rest: "\<forall>i\<in>set is. \<exists>f\<in>set (fileList s). file_id f = i"
    using Cons.prems(1) by simp
  show ?case
  proof (cases "?T i")
    case True
    then have ex: "list_ex (\<lambda>t. t \<in> set (tagSelection s)) (tags f)"
      using f by (simp add: tagged_def)
    have "filter (\<lambda>i. \<not> ?T i) (fileSelection s) = filter (\<lambda>i. \<not> ?T i) is"
      using Cons.prems(2) True by simp
    from Cons.IH[OF rest this] show ?thesis
      using f ex by simp
  next
    case False
    then have nex: "\<not> list_ex (\<lambda>t. t \<in> set (tagSelection s)) (tags f)"
      using f by (simp add: tagged_def)
    let ?s = "deselectFile f s"
    have fl: "fileList ?s = fileList s" and ts: "tagSelection ?s = tagSelection s"
      and fs: "fileSelection ?s = remove1 i (fileSelection s)"
      by (simp_all add: deselectFile_def fid)
    have hd: "filter (\<lambda>i. \<not> ?T i) (fileSelection s) = i # filter (\<lambda>i. \<not> ?T i) is"
      using Cons.prems(2) False by simp
    have 1: "filter (\<lambda>i. \<not> tagged (fileList ?s) (tagSelection ?s) i) (fileSelection ?s)
             = filter (\<lambda>i. \<not> tagged (fileList ?s) (tagSelection ?s) i) is"
      unfolding fl ts fs by (rule filter_remove1_head[OF hd])
    have 2: "\<forall>i\<in>set is. \<exists>f\<in>set (fileList ?s). file_id f = i"
      unfolding fl by (rule rest)
    have 3: "filter ?T (remove1 i (fileSelection s)) = filter ?T (fileSelection s)"
      using False by (simp add: filter_remove1_other)
    have "cleanFileSelection_forEach (map (\<lambda>i. find (\<lambda>f. file_id f = i) (fileList ?s)) is) ?s
         = Inr (?s\<lparr>fileSelection :=
                   filter (tagged (fileList ?s) (tagSelection ?s)) (fileSelection ?s)\<rparr>)"
      using Cons.IH[OF 2 1] .
    then have "cleanFileSelection_forEach (map (\<lambda>i. find (\<lambda>f. file_id f = i) (fileList s)) is) ?s
         = Inr (?s\<lparr>fileSelection := filter ?T (fileSelection s)\<rparr>)"
      unfolding fl ts fs 3 .
    moreover have "?s\<lparr>fileSelection := filter ?T (fileSelection s)\<rparr>
                   = s\<lparr>fileSelection := filter ?T (fileSelection s)\<rparr>"
      by (simp add: deselectFile_def)
    ultimately show ?thesis
      using f nex by simp
  qed
qed

lemma cleanFileSelection_filter:
  assumes "\<forall>i\<in>set (fileSelection s). \<exists>f\<in>set (fileList s). file_id f = i"
  shows "cleanFileSelection s
         = Inr (s\<lparr>fileSelection :=
                  filter (tagged (fileList s) (tagSelection s)) (fileSelection s)\<rparr>)"
  unfolding cleanFileSelection_def clientFileSelection_def
  by (rule forEach_filter[OF assms refl])

lemma tagged_filterD:
  assumes "i \<in> set (filter (tagged files sel) xs)"
  shows "\<exists>f. find (\<lambda>f. file_id f = i) files = Some f \<and> (\<exists>t\<in>set (tags f). t \<in> set sel)"
proof -
  from assms have "tagged files sel i" by simp
  then show ?thesis
    by (cases "find (\<lambda>f. file_id f = i) files") (simp_all add: tagged_def list_ex_iff)
qed

text \<open>
  What holds of a store \<open>s'\<close> in which \<open>fileSelection\<close> has been filtered by \<open>tagged\<close>,
  whatever its \<open>fetchState\<close>.
\<close>

lemma filtered_selection_tagged:
  assumes "fileSelection s' = filter (tagged (fileList s') (tagSelection s')) xs"
  shows "(\<forall>i\<in>set (fileSelection s').
            \<exists>f. find (\<lambda>f. file_id f = i) (fileList s') = Some f
                \<and> (\<exists>t\<in>set (tags f). t \<in> set (tagSelection s')))
       \<and> (distinct (map file_id (fileList s')) \<longrightarrow>
            (\<forall>f\<in>set (fileList s'). file_id f \<in> set (fileSelection s')
                \<longrightarrow> (\<exists>t\<in>set (tags f). t \<in> set (tagSelection s'))))"
proof -
  have A: "\<exists>f. find (\<lambda>f. file_id f = i) (fileList s') = Some f
               \<and> (\<exists>t\<in>set (tags f). t \<in> set (tagSelection s'))"
    if "i \<in> set (fileSelection s')" for i
    using that unfolding assms by (rule tagged_filterD)
  have B: "\<exists>t\<in>set (tags f). t \<in> set (tagSelection s')"
    if d: "distinct (map file_id (fileList s'))" and f: "f \<in> set (fileList s')"
      and sel: "file_id f \<in> set (fileSelection s')" for f
  proof -
    from find_distinct_file_id[OF d f]
    have "find (\<lambda>g. file_id g = file_id f) (fileList s') = Some f" .
    with A[OF sel] show ?thesis by simp
  qed
  from A B show ?thesis by blast
qed

text \<open>
  C1. Take a store in which every id of \<open>fileSelection\<close> is the id of a file of
  \<open>fileList\<close>. Then \<open>selectTag t\<close> and \<open>deselectTag t\<close> both return normally, with the
  tag appended to, or removed once from, \<open>tagSelection\<close>; and in the store they leave,
  every id that remains in \<open>fileSelection\<close> is the id of a file with at least one of
  its tags in the current \<open>tagSelection\<close> (the file that \<open>fileList.find\<close> gives for the
  id; where the ids of \<open>fileList\<close> are distinct, every file with that id).
\<close>

theorem selectTag_deselectTag_clean_fileSelection:
  assumes "\<forall>i\<in>set (fileSelection s). \<exists>f\<in>set (fileList s). file_id f = i"
  shows "(\<exists>s'. selectTag fetch tag s = Inr s'
            \<and> tagSelection s' = tagSelection s @ [tag_id tag]
            \<and> fileList s' = fileList s
            \<and> (\<forall>i\<in>set (fileSelection s').
                  \<exists>f. find (\<lambda>f. file_id f = i) (fileList s') = Some f
                      \<and> (\<exists>t\<in>set (tags f). t \<in> set (tagSelection s')))
            \<and> (distinct (map file_id (fileList s')) \<longrightarrow>
                  (\<forall>f\<in>set (fileList s'). file_id f \<in> set (fileSelection s')
                      \<longrightarrow> (\<exists>t\<in>set (tags f). t \<in> set (tagSelection s')))))
       \<and> (\<exists>s'. deselectTag fetch tag s = Inr s'
            \<and> tagSelection s' = remove1 (tag_id tag) (tagSelection s)
            \<and> fileList s' = fileList s
            \<and> (\<forall>i\<in>set (fileSelection s').
                  \<exists>f. find (\<lambda>f. file_id f = i) (fileList s') = Some f
                      \<and> (\<exists>t\<in>set (tags f). t \<in> set (tagSelection s')))
            \<and> (distinct (map file_id (fileList s')) \<longrightarrow>
                  (\<forall>f\<in>set (fileList s'). file_id f \<in> set (fileSelection s')
                      \<longrightarrow> (\<exists>t\<in>set (tags f). t \<in> set (tagSelection s')))))"
proof -
  have step: "\<exists>s'. Inr (fetchFilesByTagIDs fetch
                 (s\<lparr>tagSelection := sel,
                    fileSelection := filter (tagged (fileList s) sel) (fileSelection s)\<rparr>))
               = (Inr s' :: error + 'a UiStore)
            \<and> tagSelection s' = sel
            \<and> fileList s' = fileList s
            \<and> (\<forall>i\<in>set (fileSelection s').
                  \<exists>f. find (\<lambda>f. file_id f = i) (fileList s') = Some f
                      \<and> (\<exists>t\<in>set (tags f). t \<in> set (tagSelection s')))
            \<and> (distinct (map file_id (fileList s')) \<longrightarrow>
                  (\<forall>f\<in>set (fileList s'). file_id f \<in> set (fileSelection s')
                      \<longrightarrow> (\<exists>t\<in>set (tags f). t \<in> set (tagSelection s'))))" for sel
  proof -
    let ?s' = "fetchFilesByTagIDs fetch
                 (s\<lparr>tagSelection := sel,
                    fileSelection := filter (tagged (fileList s) sel) (fileSelection s)\<rparr>)"
    have "fileSelection ?s' = filter (tagged (fileList ?s') (tagSelection ?s')) (fileSelection s)"
      by (simp add: fetchFilesByTagIDs_def)
    from filtered_selection_tagged[OF this]
    show ?thesis by (simp add: fetchFilesByTagIDs_def)
  qed
  have pre: "\<forall>i\<in>set (fileSelection (s\<lparr>tagSelection := sel\<rparr>)).
               \<exists>f\<in>set (fileList (s\<lparr>tagSelection := sel\<rparr>)). file_id f = i" for sel
    using assms by simp
  have sel: "selectTag fetch tag s
             = Inr (fetchFilesByTagIDs fetch
                 (s\<lparr>tagSelection := tagSelection s @ [tag_id tag],
                    fileSelection := filter (tagged (fileList s) (tagSelection s @ [tag_id tag]))
                                       (fileSelection s)\<rparr>))"
    by (simp add: selectTag_def cleanFileSelection_filter[OF pre])
  have desel: "deselectTag fetch tag s
             = Inr (fetchFilesByTagIDs fetch
                 (s\<lparr>tagSelection := remove1 (tag_id tag) (tagSelection s),
                    fileSelection := filter (tagged (fileList s) (remove1 (tag_id tag) (tagSelection s)))
                                       (fileSelection s)\<rparr>))"
    by (simp add: deselectTag_def cleanFileSelection_filter[OF pre])
  show ?thesis
    unfolding sel desel
    using step[of "tagSelection s @ [tag_id tag]"] step[of "remove1 (tag_id tag) (tagSelection s)"]
    by (rule conjI)
qed

theorem selectTag_deselectTag_clean_fileSelection_witness:
  "selectTag (#) \<lparr>tag_id = ''t3'', subTags = []\<rparr>
     \<lparr>fileSelection = [''a'', ''b'', ''a'', ''c''], tagSelection = [''t1'', ''t2''],
      fileList = [\<lparr>file_id = ''a'', tags = [''t1'']\<rparr>,
                  \<lparr>file_id = ''b'', tags = [''t2'', ''t3'']\<rparr>,
                  \<lparr>file_id = ''c'', tags = []\<rparr>],
      fetchState = []\<rparr>
   = Inr \<lparr>fileSelection = [''a'', ''b'', ''a''], tagSelection = [''t1'', ''t2'', ''t3''],
      fileList = [\<lparr>file_id = ''a'', tags = [''t1'']\<rparr>,
                  \<lparr>file_id = ''b'', tags = [''t2'', ''t3'']\<rparr>,
                  \<lparr>file_id = ''c'', tags = []\<rparr>],
      fetchState = [[''t1'', ''t2'', ''t3'']]\<rparr>
   \<and> deselectTag (#) \<lparr>tag_id = ''t1'', subTags = []\<rparr>
     \<lparr>fileSelection = [''a'', ''b'', ''a'', ''c''], tagSelection = [''t1'', ''t2''],
      fileList = [\<lparr>file_id = ''a'', tags = [''t1'']\<rparr>,
                  \<lparr>file_id = ''b'', tags = [''t2'', ''t3'']\<rparr>,
                  \<lparr>file_id = ''c'', tags = []\<rparr>],
      fetchState = []\<rparr>
   = Inr \<lparr>fileSelection = [''b''], tagSelection = [''t2''],
      fileList = [\<lparr>file_id = ''a'', tags = [''t1'']\<rparr>,
                  \<lparr>file_id = ''b'', tags = [''t2'', ''t3'']\<rparr>,
                  \<lparr>file_id = ''c'', tags = []\<rparr>],
      fetchState = [[''t2'']]\<rparr>"
proof -
  let ?s = "\<lparr>fileSelection = [''a'', ''b'', ''a'', ''c''], tagSelection = [''t1'', ''t2''],
      fileList = [\<lparr>file_id = ''a'', tags = [''t1'']\<rparr>,
                  \<lparr>file_id = ''b'', tags = [''t2'', ''t3'']\<rparr>,
                  \<lparr>file_id = ''c'', tags = []\<rparr>],
      fetchState = ([] :: ID list list)\<rparr>"
  have pre: "\<forall>i\<in>set (fileSelection ?s). \<exists>f\<in>set (fileList ?s). file_id f = i"
    by simp
  from selectTag_deselectTag_clean_fileSelection[OF pre, where fetch = "(#)"
      and tag = "\<lparr>tag_id = ''t3'', subTags = []\<rparr>"]
    selectTag_deselectTag_clean_fileSelection[OF pre, where fetch = "(#)"
      and tag = "\<lparr>tag_id = ''t1'', subTags = []\<rparr>"]
  show ?thesis
    by (simp add: selectTag_def deselectTag_def cleanFileSelection_def clientFileSelection_def
        deselectFile_def fetchFilesByTagIDs_def)
qed

section \<open>Slide navigation\<close>

text \<open>
  C2. Let \<open>setFirstItem\<close> store every index of \<open>fileList\<close> it is given in \<open>firstItem\<close>
  and change nothing else. For a non-empty \<open>fileList\<close> and \<open>firstItem\<close> between \<open>0\<close> and
  \<open>fileList.length - 1\<close>, \<open>decrImgIndex\<close> then sets \<open>firstItem\<close> to
  \<open>max(0, firstItem - 1)\<close> and \<open>incrImgIndex\<close> sets it to
  \<open>min(firstItem + 1, fileList.length - 1)\<close>; after either, \<open>firstItem\<close> is again
  between \<open>0\<close> and \<open>fileList.length - 1\<close>, and \<open>fileList\<close> is as before.
\<close>

theorem slide_navigation_in_range:
  assumes "fileStore_fileList s \<noteq> []"
    and "0 \<le> firstItem s"
    and "firstItem s \<le> int (length (fileStore_fileList s)) - 1"
    and "\<And>i s. 0 \<le> i \<Longrightarrow> i < int (length (fileStore_fileList s))
           \<Longrightarrow> setFirstItem i s = s\<lparr>firstItem := i\<rparr>"
  shows "firstItem (decrImgIndex setFirstItem s) = max 0 (firstItem s - 1)
       \<and> firstItem (incrImgIndex setFirstItem s)
           = min (firstItem s + 1) (int (length (fileStore_fileList s)) - 1)
       \<and> 0 \<le> firstItem (decrImgIndex setFirstItem s)
       \<and> firstItem (decrImgIndex setFirstItem s)
           \<le> int (length (fileStore_fileList (decrImgIndex setFirstItem s))) - 1
       \<and> 0 \<le> firstItem (incrImgIndex setFirstItem s)
       \<and> firstItem (incrImgIndex setFirstItem s)
           \<le> int (length (fileStore_fileList (incrImgIndex setFirstItem s))) - 1
       \<and> fileStore_fileList (decrImgIndex setFirstItem s) = fileStore_fileList s
       \<and> fileStore_fileList (incrImgIndex setFirstItem s) = fileStore_fileList s"
proof -
  let ?n = "int (length (fileStore_fileList s))"
  have n: "0 < ?n" using assms(1) by simp
  have "0 \<le> max 0 (firstItem s - 1)" and "max 0 (firstItem s - 1) < ?n"
    using assms(3) n by simp_all
  then have decr: "decrImgIndex setFirstItem s = s\<lparr>firstItem := max 0 (firstItem s - 1)\<rparr>"
    unfolding decrImgIndex_def by (rule assms(4))
  have "0 \<le> min (firstItem s + 1) (?n - 1)" and "min (firstItem s + 1) (?n - 1) < ?n"
    using assms(2) n by simp_all
  then have incr: "incrImgIndex setFirstItem s = s\<lparr>firstItem := min (firstItem s + 1) (?n - 1)\<rparr>"
    unfolding incrImgIndex_def by (rule assms(4))
  show ?thesis
    unfolding decr incr using assms(1-3) by simp
qed

theorem slide_navigation_in_range_witness:
  "firstItem (decrImgIndex
      (\<lambda>i s. if 0 \<le> i \<and> i < int (length (fileStore_fileList s)) then s\<lparr>firstItem := i\<rparr> else s)
      \<lparr>firstItem = 0, fileStore_fileList = [''a'', ''b'', ''c'']\<rparr>) = 0
   \<and> firstItem (incrImgIndex
      (\<lambda>i s. if 0 \<le> i \<and> i < int (length (fileStore_fileList s)) then s\<lparr>firstItem := i\<rparr> else s)
      \<lparr>firstItem = 0, fileStore_fileList = [''a'', ''b'', ''c'']\<rparr>) = 1
   \<and> firstItem (incrImgIndex
      (\<lambda>i s. if 0 \<le> i \<and> i < int (length (fileStore_fileList s)) then s\<lparr>firstItem := i\<rparr> else s)
      \<lparr>firstItem = 2, fileStore_fileList = [''a'', ''b'', ''c'']\<rparr>) = 2
   \<and> firstItem (decrImgIndex
      (\<lambda>i s. if 0 \<le> i \<and> i < int (length (fileStore_fileList s)) then s\<lparr>firstItem := i\<rparr> else s)
      \<lparr>firstItem = 2, fileStore_fileList = [''a'', ''b'', ''c'']\<rparr>) = 1"
proof -
  let ?set = "\<lambda>i (s :: string SlideStores).
      if 0 \<le> i \<and> i < int (length (fileStore_fileList s)) then s\<lparr>firstItem := i\<rparr> else s"
  have stores: "0 \<le> i \<Longrightarrow> i < int (length (fileStore_fileList s))
      \<Longrightarrow> ?set i s = s\<lparr>firstItem := i\<rparr>" for i s
    by simp
  from slide_navigation_in_range[where setFirstItem = ?set
      and s = "\<lparr>firstItem = 0, fileStore_fileList = [''a'', ''b'', ''c'']\<rparr>", OF _ _ _ stores]
    slide_navigation_in_range[where setFirstItem = ?set
      and s = "\<lparr>firstItem = 2, fileStore_fileList = [''a'', ''b'', ''c'']\<rparr>", OF _ _ _ stores]
  show ?thesis by simp
qed

section \<open>Dropping a tag on a gallery item\<close>

lemma fold_addTag_tags:
  assumes "\<And>t f. set (tags (addTag t f)) = insert t (set (tags f))"
  shows "set (tags (fold addTag ts f)) = set (tags f) \<union> set ts"
  by (induction ts arbitrary: f) (simp_all add: assms)

lemma fold_ctx_calls:
  "fold (\<lambda>tag f. fold addTag (subTags tag) (addTag (tag_id tag) f)) ctx f
   = fold addTag (concat (map (\<lambda>tag. tag_id tag # subTags tag) ctx)) f"
  by (induction ctx arbitrary: f) simp_all

text \<open>
  C3. \<open>handleDrop\<close> on an event whose \<open>dataTransfer.types\<close> include the tag
  drag-and-drop type calls \<open>file.addTag\<close>, for every tag among the \<open>tags\<close> of the context
  that \<open>getTagContextItems\<close> returns for the dragged id, in turn, with the id of that
  tag and then with each of its \<open>subTags\<close>. So, with an \<open>addTag\<close> that adds the id it is
  given to the tags of the file, the tags of the file afterwards are those before
  together with the ids and the sub-tag ids of the context tags, and nothing else.
  On an event whose types do not include the type, \<open>handleDrop\<close> leaves the file, and
  so its tags, and the event unchanged.
\<close>

theorem handleDrop_adds_context_tags:
  assumes "\<And>t f. set (tags (addTag t f)) = insert t (set (tags f))"
  shows "(DnDType \<in> set (types event) \<longrightarrow>
            fst (handleDrop DnDType target getTagContextItems addTag file event)
            = fold addTag
                (concat (map (\<lambda>tag. tag_id tag # subTags tag)
                   (getTagContextItems (getData event DnDType)))) file
            \<and> set (tags (fst (handleDrop DnDType target getTagContextItems addTag file event)))
              = set (tags file)
                \<union> (\<Union>tag\<in>set (getTagContextItems (getData event DnDType)).
                      insert (tag_id tag) (set (subTags tag))))
       \<and> (DnDType \<in> set (types event)
            \<and> tag \<in> set (getTagContextItems (getData event DnDType)) \<longrightarrow>
            tag_id tag \<in> set (tags (fst (handleDrop DnDType target getTagContextItems addTag file event)))
            \<and> set (subTags tag)
                \<subseteq> set (tags (fst (handleDrop DnDType target getTagContextItems addTag file event))))
       \<and> (DnDType \<notin> set (types event) \<longrightarrow>
            handleDrop DnDType target getTagContextItems addTag file event = (file, event))"
proof -
  let ?ctx = "getTagContextItems (getData event DnDType)"
  let ?file' = "fst (handleDrop DnDType target getTagContextItems addTag file event)"
  have calls: "DnDType \<in> set (types event) \<Longrightarrow>
      ?file' = fold addTag (concat (map (\<lambda>tag. tag_id tag # subTags tag) ?ctx)) file"
    by (simp add: handleDrop_def fold_ctx_calls)
  have drop: "set (tags ?file')
              = set (tags file) \<union> (\<Union>tag\<in>set ?ctx. insert (tag_id tag) (set (subTags tag)))"
    if "DnDType \<in> set (types event)"
    unfolding calls[OF that] fold_addTag_tags[OF assms] by auto
  have in_ctx: "tag_id tag \<in> set (tags ?file') \<and> set (subTags tag) \<subseteq> set (tags ?file')"
    if "DnDType \<in> set (types event)" and "tag \<in> set ?ctx"
    unfolding drop[OF that(1)] using that(2) by blast
  have other: "DnDType \<notin> set (types event) \<Longrightarrow>
      handleDrop DnDType target getTagContextItems addTag file event = (file, event)"
    by (simp add: handleDrop_def)
  from calls drop in_ctx other show ?thesis by blast
qed

theorem handleDrop_adds_context_tags_witness:
  "tags (fst (handleDrop ''tag'' ''target''
       (\<lambda>i. [\<lparr>tag_id = i, subTags = [''s1'', ''s2'']\<rparr>])
       (\<lambda>t f. f\<lparr>tags := (if t \<in> set (tags f) then tags f else tags f @ [t])\<rparr>)
       \<lparr>file_id = ''f'', tags = [''s1'']\<rparr>
       \<lparr>types = [''tag''], getData = (\<lambda>ty. if ty = ''tag'' then ''t'' else []),
        dropEffect = ''link'', dataset = Map.empty\<rparr>))
   = [''s1'', ''t'', ''s2'']
   \<and> fst (handleDrop ''tag'' ''target''
       (\<lambda>i. [\<lparr>tag_id = i, subTags = [''s1'', ''s2'']\<rparr>])
       (\<lambda>t f. f\<lparr>tags := (if t \<in> set (tags f) then tags f else tags f @ [t])\<rparr>)
       \<lparr>file_id = ''f'', tags = [''s1'']\<rparr>
       \<lparr>types = [''Files''], getData = (\<lambda>ty. []),
        dropEffect = ''link'', dataset = Map.empty\<rparr>)
   = \<lparr>file_id = ''f'', tags = [''s1'']\<rparr>"
proof -
  let ?addTag = "\<lambda>t f. f\<lparr>tags := (if t \<in> set (tags f) then tags f else tags f @ [t])\<rparr>"
  have adds: "set (tags (?addTag t f)) = insert t (set (tags f))" for t and f :: ClientFile
    by auto
  from handleDrop_adds_context_tags[where addTag = ?addTag, OF adds]
  show ?thesis
    by (simp add: handleDrop_def)
qed

text \<open>
  C3, as first stated, has \<open>handleDrop\<close> add the id of the dragged tag and the ids of
  the sub-tags of the dragged tag. \<open>handleDrop\<close> never adds the dragged id itself: it
  adds what the context holds. Here the tag \<open>t\<close>, with sub-tag \<open>t1\<close>, is dragged, and
  the context of \<open>t\<close> is its parent \<open>p\<close> alone, whose sub-tags are \<open>t\<close> and \<open>u\<close>: the file gets
  \<open>p\<close>, \<open>t\<close> and \<open>u\<close>, and not the sub-tag \<open>t1\<close> of the dragged tag.
\<close>

theorem handleDrop_dragged_subTags_counterexample:
  "''tag'' \<in> set (types \<lparr>types = [''tag''], getData = (\<lambda>ty. if ty = ''tag'' then ''t'' else []),
        dropEffect = ''link'', dataset = Map.empty\<rparr>)
   \<and> tag_id \<lparr>tag_id = ''t'', subTags = [''t1'']\<rparr>
     = getData \<lparr>types = [''tag''], getData = (\<lambda>ty. if ty = ''tag'' then ''t'' else []),
        dropEffect = ''link'', dataset = Map.empty\<rparr> ''tag''
   \<and> tags (fst (handleDrop ''tag'' ''target''
       (\<lambda>i. [\<lparr>tag_id = ''p'', subTags = [''t'', ''u'']\<rparr>])
       (\<lambda>t f. f\<lparr>tags := (if t \<in> set (tags f) then tags f else tags f @ [t])\<rparr>)
       \<lparr>file_id = ''f'', tags = []\<rparr>
       \<lparr>types = [''tag''], getData = (\<lambda>ty. if ty = ''tag'' then ''t'' else []),
        dropEffect = ''link'', dataset = Map.empty\<rparr>))
     = [''p'', ''t'', ''u'']
   \<and> \<not> set (subTags \<lparr>tag_id = ''t'', subTags = [''t1'']\<rparr>)
       \<subseteq> set (tags (fst (handleDrop ''tag'' ''target''
         (\<lambda>i. [\<lparr>tag_id = ''p'', subTags = [''t'', ''u'']\<rparr>])
         (\<lambda>t f. f\<lparr>tags := (if t \<in> set (tags f) then tags f else tags f @ [t])\<rparr>)
         \<lparr>file_id = ''f'', tags = []\<rparr>
         \<lparr>types = [''tag''], getData = (\<lambda>ty. if ty = ''tag'' then ''t'' else []),
          dropEffect = ''link'', dataset = Map.empty\<rparr>)))"
  by (simp add: handleDrop_def)

section \<open>Thumbnail readiness\<close>

text \<open>\<open>endsWith\<close> holds exactly of the strings that are some string followed by the suffix.\<close>

lemma endsWith_iff: "endsWith s t \<longleftrightarrow> (\<exists>p. s = p @ t)"
proof
  assume "endsWith s t"
  then have "s = take (length s - length t) s @ t"
    by (metis append_take_drop_id endsWith_def)
  then show "\<exists>p. s = p @ t" ..
next
  assume "\<exists>p. s = p @ t"
  then show "endsWith s t" by (auto simp add: endsWith_def)
qed

text \<open>
  C4. When a path that ends with \<open>?v=1\<close> becomes the displayed \<open>imagePath\<close> (at the first
  render, or at a render whose \<open>imagePath\<close> differs from the one before), the effect on
  \<open>imagePath\<close> sets \<open>isThumbnailReady\<close> to true and \<open>isThumbnailGenerating\<close> to false,
  whatever they were, and in the state it leaves the item renders the \<open>img\<close> element
  with that path, not the loading placeholder and not the missing-image fallback. A
  render with the same path and an \<open>ensureThumbnail\<close> that resolves to true leave the
  state as it is.
\<close>

theorem thumbnail_ready_on_version_suffix:
  assumes "endsWith path ''?v=1''"
  shows "isThumbnailReady (thumbnailReady_effect path st)
       \<and> \<not> isThumbnailGenerating (thumbnailReady_effect path st)
       \<and> renderThumbnail path (thumbnailReady_effect path st) = Img path
       \<and> (prev \<noteq> Some path \<longrightarrow>
            imagePath_commit prev path st
            = \<lparr>isThumbnailReady = True, isThumbnailGenerating = False\<rparr>
            \<and> renderThumbnail path (imagePath_commit prev path st) = Img path)
       \<and> imagePath_commit (Some path) path st = st
       \<and> ensureThumbnail_then isBroken True st = st"
  using assms
  by (simp add: thumbnailReady_effect_def renderThumbnail_def imagePath_commit_def
      ensureThumbnail_then_def)

theorem thumbnail_ready_on_version_suffix_witness:
  "endsWith ''thumb/a.jpg?v=1'' ''?v=1''
   \<and> renderThumbnail ''thumb/a.jpg?v=1''
        (imagePath_commit (Some ''thumb/a.jpg'') ''thumb/a.jpg?v=1''
           \<lparr>isThumbnailReady = False, isThumbnailGenerating = True\<rparr>)
       = Img ''thumb/a.jpg?v=1''"
proof -
  have h: "endsWith ''thumb/a.jpg?v=1'' ''?v=1''" by (simp add: endsWith_def)
  from thumbnail_ready_on_version_suffix[OF h, where prev = "Some ''thumb/a.jpg''"
      and st = "\<lparr>isThumbnailReady = False, isThumbnailGenerating = True\<rparr>"] h
  show ?thesis by (simp add: renderThumbnail_def)
qed

text \<open>
  C4, as first stated, has the item render the \<open>img\<close> element whenever the displayed
  path ends with \<open>?v=1\<close>. The path below ends with \<open>?v=1\<close> and is displayed from the
  first render on. After \<open>handleImageError\<close> (the image of that path could not be
  loaded) the item renders the missing-image fallback; after an \<open>ensureThumbnail\<close> that
  resolves to false for a file that is not broken, it renders the loading
  placeholder. The path is the same throughout.
\<close>

theorem thumbnail_not_ready_counterexample:
  "endsWith ''thumb/a.jpg?v=1'' ''?v=1''
   \<and> renderThumbnail ''thumb/a.jpg?v=1''
        (imagePath_commit None ''thumb/a.jpg?v=1'' initialThumbnailState)
       = Img ''thumb/a.jpg?v=1''
   \<and> renderThumbnail ''thumb/a.jpg?v=1''
        (handleImageError
           (imagePath_commit None ''thumb/a.jpg?v=1'' initialThumbnailState))
       = MissingImageFallback
   \<and> renderThumbnail ''thumb/a.jpg?v=1''
        (ensureThumbnail_then False False
           (imagePath_commit None ''thumb/a.jpg?v=1'' initialThumbnailState))
       = DonutLoading"
  by (simp add: endsWith_def renderThumbnail_def handleImageError_def imagePath_commit_def
      thumbnailReady_effect_def initialThumbnailState_def ensureThumbnail_then_def)

section \<open>ZoomableImage: load errors\<close>

text \<open>
  C5. \<open>ZoomableImage\<close> renders the \<open>image-error\<close> placeholder, and not the \<open>ZoomPan\<close>
  viewer, exactly when \<open>loadError\<close> holds a recorded error. The state starts without
  one, \<open>setLoadError\<close> records one, and the effects of the first render and of every
  render whose \<open>src\<close> differs from the one before reset \<open>loadError\<close> to \<open>undefined\<close>: for
  a new \<open>src\<close> the state the effects leave is rendered as the viewer.
\<close>

theorem ZoomableImage_error_placeholder:
  fixes p :: "('n::{linorder,inverse,numeral}) ZoomableImageProps"
  shows "((\<exists>w h. renderZoomableImage createDimension p st = ImageError w h)
            \<longleftrightarrow> loadError st \<noteq> None)
       \<and> ((\<exists>a b c d i. renderZoomableImage createDimension p st = ZoomPan a b c d i)
            \<longleftrightarrow> loadError st = None)
       \<and> loadError (initialState createDimension p :: ('e, 'd) ZoomableImageState) = None
       \<and> loadError (setLoadError e st) = Some e
       \<and> (prev = None \<or> (\<exists>q. prev = Some q \<and> src q \<noteq> src p) \<longrightarrow>
            loadError (runEffects createDimension prev p st) = None
            \<and> (\<exists>a b c d i. renderZoomableImage createDimension p
                  (runEffects createDimension prev p st) = ZoomPan a b c d i))"
  by (auto simp add: renderZoomableImage_def initialState_def setLoadError_def runEffects_def
      loadError_effect_def currentImg_effect_def Let_def split: option.splits)

theorem ZoomableImage_error_placeholder_witness:
  "renderZoomableImage Pair
     \<lparr>src = ''b.png'', thumbnailSrc = Some ''b_thumb.png'',
      width = 800, height = 600, imgWidth = 4000, imgHeight = 2000 :: real\<rparr>
     \<lparr>loadError = Some ''error'',
      currentImg = \<lparr>img_src = ''a.png'', img_dimensions = (1000, 500)\<rparr>\<rparr>
   = ImageError 800 600
   \<and> renderZoomableImage Pair
     \<lparr>src = ''b.png'', thumbnailSrc = Some ''b_thumb.png'',
      width = 800, height = 600, imgWidth = 4000, imgHeight = 2000 :: real\<rparr>
     (runEffects Pair
        (Some \<lparr>src = ''a.png'', thumbnailSrc = None,
               width = 800, height = 600, imgWidth = 1000, imgHeight = 500\<rparr>)
        \<lparr>src = ''b.png'', thumbnailSrc = Some ''b_thumb.png'',
         width = 800, height = 600, imgWidth = 4000, imgHeight = 2000\<rparr>
        \<lparr>loadError = Some ''error'',
         currentImg = \<lparr>img_src = ''a.png'', img_dimensions = (1000, 500)\<rparr>\<rparr>)
   = ZoomPan (4000, 2000) (800, 600) (1 / 10) 5 ''b_thumb.png''"
  using ZoomableImage_error_placeholder[where createDimension = Pair
      and p = "\<lparr>src = ''b.png'', thumbnailSrc = Some ''b_thumb.png'',
        width = 800, height = 600, imgWidth = 4000, imgHeight = 2000 :: real\<rparr>"
      and st = "\<lparr>loadError = Some ''error'',
        currentImg = \<lparr>img_src = ''a.png'', img_dimensions = (1000, 500)\<rparr>\<rparr>"
      and prev = "Some \<lparr>src = ''a.png'', thumbnailSrc = None,
             width = 800, height = 600, imgWidth = 1000, imgHeight = 500\<rparr>"]
  by (simp add: renderZoomableImage_def runEffects_def loadError_effect_def
      currentImg_effect_def thumbnailSrc_or_src_def minScale_def)

section \<open>ZoomableImage: the minimum scale\<close>

text \<open>
  In a field the bound by the two quotients says that the image, scaled by
  \<open>minScale\<close>, is no wider and no higher than the container.
\<close>

lemma minScale_fits:
  fixes p :: "('n::linordered_field) ZoomableImageProps"
  assumes "0 < imgWidth p" and "0 < imgHeight p"
  shows "imgWidth p * minScale p \<le> width p \<and> imgHeight p * minScale p \<le> height p"
proof -
  have "minScale p \<le> width p / imgWidth p" and "minScale p \<le> height p / imgHeight p"
    by (simp_all add: minScale_def min_le_iff_disj)
  with assms show ?thesis
    by (simp add: pos_le_divide_eq mult.commute)
qed

text \<open>
  C6. For positive \<open>width\<close>, \<open>height\<close>, \<open>imgWidth\<close> and \<open>imgHeight\<close>, \<open>minScale\<close> is
  \<open>min(0.1, min(width / imgWidth, height / imgHeight))\<close>; it is at most \<open>0.1\<close> and at
  most each of the two quotients, the smaller of which is the scale at which the image
  fits the container; and it is the \<open>minScale\<close> that the \<open>ZoomPan\<close> viewer is given.
  The statement uses of the numbers only that they are linearly ordered.
\<close>

theorem minScale_bounds:
  fixes p :: "('n::{linorder,inverse,numeral,zero}) ZoomableImageProps"
  assumes "0 < width p" and "0 < height p" and "0 < imgWidth p" and "0 < imgHeight p"
  shows "minScale p = min (1 / 10) (min (width p / imgWidth p) (height p / imgHeight p))
       \<and> minScale p \<le> 1 / 10
       \<and> minScale p \<le> width p / imgWidth p
       \<and> minScale p \<le> height p / imgHeight p
       \<and> (loadError st = None \<longrightarrow>
            renderZoomableImage createDimension p st
            = ZoomPan (img_dimensions (currentImg st)) (createDimension (width p) (height p))
                (minScale p) 5 (img_src (currentImg st)))"
  by (simp add: minScale_def renderZoomableImage_def min_le_iff_disj)

theorem minScale_bounds_witness:
  "minScale \<lparr>src = ''a.png'', thumbnailSrc = None,
             width = 800, height = 600, imgWidth = 4000, imgHeight = 2000 :: real\<rparr> = 1 / 10
   \<and> minScale \<lparr>src = ''a.png'', thumbnailSrc = None,
             width = 800, height = 600, imgWidth = 16000, imgHeight = 8000 :: real\<rparr> = 1 / 20"
  using minScale_bounds[of
      "\<lparr>src = ''a.png'', thumbnailSrc = None,
        width = 800, height = 600, imgWidth = 4000, imgHeight = 2000 :: real\<rparr>"]
    minScale_bounds[of
      "\<lparr>src = ''a.png'', thumbnailSrc = None,
        width = 800, height = 600, imgWidth = 16000, imgHeight = 8000 :: real\<rparr>"]
  by (simp add: minScale_def)

section \<open>ToolbarButton\<close>

text \<open>
  C7. A \<open>ToolbarButton\<close> with \<open>disabled = true\<close> renders a button without \<open>onClick\<close>
  handler, so a click on it calls nothing (otherwise the handler is the \<open>onClick\<close>
  prop); \<open>aria-disabled\<close> is the value of \<open>disabled\<close>; and the rendered \<open>tabIndex\<close> is
  \<open>-1\<close> when the prop is omitted, the prop otherwise.
\<close>

theorem ToolbarButton_disabled_and_tabIndex:
  "(disabled props = Some True \<longrightarrow>
      attr_onClick (ToolbarButton props) = None \<and> click (ToolbarButton props) = [])
   \<and> (disabled props \<noteq> Some True \<longrightarrow> attr_onClick (ToolbarButton props) = onClick props)
   \<and> aria_disabled (ToolbarButton props) = disabled props
   \<and> (tabIndex props = None \<longrightarrow> attr_tabIndex (ToolbarButton props) = - 1)
   \<and> (\<forall>i. tabIndex props = Some i \<longrightarrow> attr_tabIndex (ToolbarButton props) = i)"
  by (simp add: ToolbarButton_def click_def)

theorem ToolbarButton_disabled_and_tabIndex_witness:
  "click (ToolbarButton
     \<lparr>button_id = None, button_text = ''Delete'', icon = ''DELETE'', onClick = Some ''remove'',
      showLabel = None, tooltip = None, tabIndex = None, role = None, disabled = Some True,
      pressed = None, checked = None, expanded = None, controls = None, haspopup = None\<rparr>) = []
   \<and> aria_disabled (ToolbarButton
     \<lparr>button_id = None, button_text = ''Delete'', icon = ''DELETE'', onClick = Some ''remove'',
      showLabel = None, tooltip = None, tabIndex = None, role = None, disabled = Some True,
      pressed = None, checked = None, expanded = None, controls = None, haspopup = None\<rparr>)
     = Some True
   \<and> attr_tabIndex (ToolbarButton
     \<lparr>button_id = None, button_text = ''Delete'', icon = ''DELETE'', onClick = Some ''remove'',
      showLabel = None, tooltip = None, tabIndex = None, role = None, disabled = Some True,
      pressed = None, checked = None, expanded = None, controls = None, haspopup = None\<rparr>)
     = - 1"
  using ToolbarButton_disabled_and_tabIndex[of
      "\<lparr>button_id = None, button_text = ''Delete'', icon = ''DELETE'', onClick = Some ''remove'',
        showLabel = None, tooltip = None, tabIndex = None, role = None, disabled = Some True,
        pressed = None, checked = None, expanded = None, controls = None, haspopup = None\<rparr>"]
  by simp

section \<open>ZoomableImage: the loaded image\<close>

text \<open>
  C8. Once \<open>currentImg.src\<close> is not \<open>thumbnailSrc\<close>, an \<open>img.onload\<close> callback leaves
  \<open>currentImg\<close>, and the whole state, unchanged. The updater changes \<open>currentImg\<close> only
  when its \<open>src\<close> is exactly \<open>thumbnailSrc\<close>, and then to the entry of the full-resolution
  \<open>src\<close>; so a \<open>currentImg\<close> that shows \<open>src\<close> still shows \<open>src\<close> after the callback.
\<close>

theorem onload_keeps_full_resolution:
  "(Some (img_src (currentImg st)) \<noteq> thumbnailSrc p \<longrightarrow>
      img_onload createDimension p st = st
      \<and> img_onload_updater createDimension p (currentImg st) = currentImg st)
   \<and> (img_onload_updater createDimension p (currentImg st) \<noteq> currentImg st \<longrightarrow>
      Some (img_src (currentImg st)) = thumbnailSrc p
      \<and> img_onload_updater createDimension p (currentImg st)
        = \<lparr>img_src = src p, img_dimensions = createDimension (imgWidth p) (imgHeight p)\<rparr>)
   \<and> (img_src (currentImg st) = src p \<longrightarrow>
      img_src (currentImg (img_onload createDimension p st)) = src p)"
  by (simp add: img_onload_def img_onload_updater_def)

theorem onload_keeps_full_resolution_witness:
  "img_onload Pair
     \<lparr>src = ''a.png'', thumbnailSrc = Some ''a_thumb.png'',
      width = 800, height = 600, imgWidth = 4000, imgHeight = 2000 :: real\<rparr>
     \<lparr>loadError = (None :: string option),
      currentImg = \<lparr>img_src = ''a.png'', img_dimensions = (4000, 2000)\<rparr>\<rparr>
   = \<lparr>loadError = None,
      currentImg = \<lparr>img_src = ''a.png'', img_dimensions = (4000, 2000)\<rparr>\<rparr>
   \<and> currentImg (img_onload Pair
     \<lparr>src = ''a.png'', thumbnailSrc = Some ''a_thumb.png'',
      width = 800, height = 600, imgWidth = 4000, imgHeight = 2000 :: real\<rparr>
     \<lparr>loadError = (None :: string option),
      currentImg = \<lparr>img_src = ''a_thumb.png'', img_dimensions = (4000, 2000)\<rparr>\<rparr>)
   = \<lparr>img_src = ''a.png'', img_dimensions = (4000, 2000)\<rparr>"
  using onload_keeps_full_resolution[where createDimension = Pair
      and st = "\<lparr>loadError = (None :: string option),
        currentImg = \<lparr>img_src = ''a.png'', img_dimensions = (4000, 2000)\<rparr>\<rparr>"
      and p = "\<lparr>src = ''a.png'', thumbnailSrc = Some ''a_thumb.png'',
        width = 800, height = 600, imgWidth = 4000, imgHeight = 2000 :: real\<rparr>"]
  by (simp add: img_onload_def img_onload_updater_def)

section \<open>Selecting and deselecting a file\<close>

text \<open>
  C9. For every store and every file \<open>f\<close>, \<open>selectFile f\<close> followed by \<open>deselectFile f\<close>
  leaves \<open>fileSelection\<close> with the same multiset of ids: \<open>selectFile\<close> appends the id
  whether or not it is already selected, \<open>deselectFile\<close> removes one occurrence of it.
  Nothing else of the store changes.
\<close>

theorem selectFile_deselectFile_mset:
  "fileSelection (selectFile f s) = fileSelection s @ [file_id f]
   \<and> mset (fileSelection (deselectFile f s)) = mset (fileSelection s) - {#file_id f#}
   \<and> mset (fileSelection (deselectFile f (selectFile f s))) = mset (fileSelection s)
   \<and> tagSelection (deselectFile f (selectFile f s)) = tagSelection s
   \<and> fileList (deselectFile f (selectFile f s)) = fileList s
   \<and> fetchState (deselectFile f (selectFile f s)) = fetchState s"
  by (simp add: selectFile_def deselectFile_def)

section \<open>Clearing a selection\<close>

text \<open>
  C10. \<open>clearTagSelection\<close> empties \<open>tagSelection\<close> and requests a fetch by the now
  empty tag selection, and leaves \<open>fileSelection\<close> as it is (no \<open>cleanFileSelection\<close>
  runs). \<open>clearFileSelection\<close> empties \<open>fileSelection\<close>, leaves \<open>tagSelection\<close> as it
  is and requests no fetch.
\<close>

theorem clear_selection_frame:
  "tagSelection (clearTagSelection fetch s) = []
   \<and> fetchState (clearTagSelection fetch s) = fetch [] (fetchState s)
   \<and> fileSelection (clearTagSelection fetch s) = fileSelection s
   \<and> fileList (clearTagSelection fetch s) = fileList s
   \<and> fileSelection (clearFileSelection s) = []
   \<and> tagSelection (clearFileSelection s) = tagSelection s
   \<and> fetchState (clearFileSelection s) = fetchState s
   \<and> fileList (clearFileSelection s) = fileList s"
  by (simp add: clearTagSelection_def clearFileSelection_def fetchFilesByTagIDs_def)

end
